theory Spec2Isabelle
  imports Complex_Main "HOL-Library.Sublist"
begin

section \<open>JavaScript array and string primitives used by the sources\<close>

text \<open>
  \<open>Array.prototype.findIndex\<close>: the index of the first element satisfying the
  predicate, or \<open>-1\<close> when there is none.
\<close>

fun findIndex :: "('a \<Rightarrow> bool) \<Rightarrow> 'a list \<Rightarrow> int" where
  "findIndex p [] = - 1"
| "findIndex p (x # xs) =
     (if p x then 0
      else (let i = findIndex p xs in if i < 0 then - 1 else i + 1))"

text \<open>
  \<open>Array.prototype.splice(start, deleteCount)\<close> without inserted items, returning
  the array as it is after the call. A negative \<open>start\<close> counts from the end and is
  clamped at 0; a \<open>start\<close> beyond the end is clamped at the length.
\<close>

definition splice_js :: "int \<Rightarrow> nat \<Rightarrow> 'a list \<Rightarrow> 'a list" where
  "splice_js start deleteCount xs =
     (let len = int (length xs);
          k = nat (if start < 0 then max (len + start) 0 else min start len)
      in take k xs @ drop (k + deleteCount) xs)"


text \<open>
  \<open>String.prototype.split(separator)\<close> with a string separator: the text is cut at
  every occurrence of the separator, found from left to right without overlap, and
  the pieces between the cuts are returned, empty ones included. \<open>split_from\<close> scans
  the rest of the text, \<open>cur\<close> being the piece collected so far. With the empty
  separator the text is cut into its single characters.
\<close>

function split_from :: "string \<Rightarrow> string \<Rightarrow> string \<Rightarrow> string list" where
  "split_from sep cur [] = [cur]"
| "split_from sep cur (c # cs) =
     (if sep \<noteq> [] \<and> prefix sep (c # cs)
      then cur # split_from sep [] (drop (length sep) (c # cs))
      else split_from sep (cur @ [c]) cs)"
  by pat_completeness auto
termination
  by (relation "measure (\<lambda>(sep, cur, s). length s)") (auto simp: neq_Nil_conv)

definition split_js :: "string \<Rightarrow> string \<Rightarrow> string list" where
  "split_js s sep = (if sep = [] then map (\<lambda>c. [c]) s else split_from sep [] s)"

text \<open>
  \<open>String.prototype.indexOf(searchString)\<close>: the position of the first occurrence, or
  \<open>-1\<close> when there is none.
\<close>

fun indexOf_from :: "string \<Rightarrow> string \<Rightarrow> int \<Rightarrow> int" where
  "indexOf_from sub [] i = (if sub = [] then i else - 1)"
| "indexOf_from sub (c # cs) i =
     (if prefix sub (c # cs) then i else indexOf_from sub cs (i + 1))"

definition indexOf :: "string \<Rightarrow> string \<Rightarrow> int" where
  "indexOf s sub = indexOf_from sub s 0"

text \<open>
  Reading an array at an index: \<open>undefined\<close> (here \<open>None\<close>) beyond the end, where HOL's
  \<open>!\<close> would be unspecified.
\<close>

definition at_index :: "'a list \<Rightarrow> nat \<Rightarrow> 'a option" where
  "at_index xs i = (if i < length xs then Some (xs ! i) else None)"

section \<open>The cloning store (cloning-repositories-store)\<close>

text \<open>
  A \<open>CloningRepository\<close> object: its \<open>id\<close> is read from the module-level counter
  \<open>CloningRepositoryID\<close>, which the field initialiser post-increments. The counter
  starts at 1 and only ever grows by one, so it stays in the range where a JavaScript
  number is an exact integer; it is a \<open>nat\<close> here.
\<close>

record CloningRepository =
  repo_id :: nat
  path :: string
  url :: string

record ICloningRepositoryState =
  output_line :: string
  progressValue :: "real option"

text \<open>
  The state the class and its module own: the module-level counter, the array
  \<open>_repositories\<close>, the map \<open>stateByID\<close>, and the number of \<open>did-update\<close> events the
  emitter has sent so far (the listeners themselves are outside this file).
\<close>

record store =
  CloningRepositoryID :: nat
  repositories :: "CloningRepository list"
  stateByID :: "nat \<rightharpoonup> ICloningRepositoryState"
  emitted :: nat

definition new_store :: "nat \<Rightarrow> store" where
  "new_store c =
     \<lparr>CloningRepositoryID = c, repositories = [], stateByID = Map.empty, emitted = 0\<rparr>"

definition emitUpdate :: "store \<Rightarrow> store" where
  "emitUpdate s = s\<lparr>emitted := emitted s + 1\<rparr>"

text \<open>\<open>new CloningRepository(path, url)\<close>: the object and the state with the counter bumped.\<close>

definition new_CloningRepository :: "string \<Rightarrow> string \<Rightarrow> store \<Rightarrow> CloningRepository \<times> store" where
  "new_CloningRepository p u s =
     (\<lparr>repo_id = CloningRepositoryID s, path = p, url = u\<rparr>,
      s\<lparr>CloningRepositoryID := CloningRepositoryID s + 1\<rparr>)"

text \<open>
  The synchronous part of \<open>clone(url, path)\<close>: everything up to \<open>return promise\<close>. The
  progress callback and the \<open>then\<close> handler it registers run later; they are
  \<open>clone_progress\<close> and \<open>clone_settled\<close> below. The first component of the result is the
  object \<open>repository\<close> the call creates, which those two closures keep.
\<close>

definition clone :: "string \<Rightarrow> string \<Rightarrow> store \<Rightarrow> CloningRepository \<times> store" where
  "clone u p s =
     (let (repository, s1) = new_CloningRepository p u s;
          s2 = s1\<lparr>repositories := repositories s1 @ [repository]\<rparr>;
          s3 = s2\<lparr>stateByID := (stateByID s2)(repo_id repository \<mapsto>
                  \<lparr>output_line = ''Cloning into '' @ p, progressValue = None\<rparr>)\<rparr>
      in (repository, emitUpdate s3))"

text \<open>
  The progress callback handed to \<open>LocalGitOperations.clone\<close>, for the operation
  \<open>repository\<close>. \<open>pv\<close> is what \<open>progressParser.parse(progress)\<close> returned (\<open>None\<close> for
  \<open>null\<close>); the parser class is not part of these sources.
\<close>

definition clone_progress ::
  "CloningRepository \<Rightarrow> string \<Rightarrow> real option \<Rightarrow> store \<Rightarrow> store" where
  "clone_progress repository progress pv s =
     emitUpdate
       (case pv of
          Some v \<Rightarrow> s\<lparr>stateByID := (stateByID s)(repo_id repository \<mapsto>
                       \<lparr>output_line = progress, progressValue = Some v\<rparr>)\<rparr>
        | None \<Rightarrow> s\<lparr>stateByID := (stateByID s)(repo_id repository \<mapsto>
                       \<lparr>output_line = progress, progressValue = None\<rparr>)\<rparr>)"

text \<open>\<open>remove(repository)\<close>.\<close>

definition remove :: "CloningRepository \<Rightarrow> store \<Rightarrow> store" where
  "remove repository s =
     (let s1 = s\<lparr>stateByID := (stateByID s)(repo_id repository := None)\<rparr>;
          repoIndex = findIndex (\<lambda>r. repo_id r = repo_id repository) (repositories s1);
          s2 = (if repoIndex > - 1
                then s1\<lparr>repositories := splice_js repoIndex 1 (repositories s1)\<rparr>
                else s1)
      in emitUpdate s2)"

text \<open>
  How a promise settles. \<open>LocalGitOperations.clone\<close> returns a \<open>Promise<void>\<close>, so a
  fulfilment carries no value; a rejection carries its reason.
\<close>

datatype error = ExternalProcessError int

datatype outcome = Fulfilled | Rejected error

text \<open>
  \<open>promise.then(onFulfilled)\<close> with no rejection handler: when the promise is fulfilled
  the handler runs and the derived promise is fulfilled with its result; when the
  promise is rejected the handler does not run and the derived promise is rejected with
  the same reason.
\<close>

definition promise_then :: "outcome \<Rightarrow> (store \<Rightarrow> store) \<Rightarrow> store \<Rightarrow> outcome \<times> store" where
  "promise_then settled onFulfilled s =
     (case settled of
        Fulfilled \<Rightarrow> (Fulfilled, onFulfilled s)
      | Rejected e \<Rightarrow> (Rejected e, s))"

text \<open>
  What happens in the store when the promise of \<open>LocalGitOperations.clone\<close> settles: the
  reaction \<open>.then(() => { this.remove(repository) })\<close> of \<open>clone\<close>. The first component
  is how the promise that \<open>clone\<close> returned settles.
\<close>

definition clone_settled :: "CloningRepository \<Rightarrow> outcome \<Rightarrow> store \<Rightarrow> outcome \<times> store" where
  "clone_settled repository settled s = promise_then settled (remove repository) s"

text \<open>
  The steps the store can take, in the order the event loop runs them: a call of
  \<open>clone\<close>, a progress callback of a running clone, the settling of a running clone, and
  a call of the public \<open>remove\<close>.
\<close>

datatype event =
    Clone string string
  | Progress CloningRepository string "real option"
  | Settled CloningRepository outcome
  | Remove CloningRepository

fun step :: "event \<Rightarrow> store \<Rightarrow> store" where
  "step (Clone u p) s = snd (clone u p s)"
| "step (Progress r line pv) s = clone_progress r line pv s"
| "step (Settled r out) s = snd (clone_settled r out s)"
| "step (Remove r) s = remove r s"

fun run :: "event list \<Rightarrow> store \<Rightarrow> store" where
  "run [] s = s"
| "run (e # es) s = run es (step e s)"

text \<open>The ids of the operations in the live list.\<close>

definition live_ids :: "store \<Rightarrow> nat set" where
  "live_ids s = set (map repo_id (repositories s))"

text \<open>
  The two structures agree: the ids with a state are the ids of the operations in the
  list.
\<close>

definition agree :: "store \<Rightarrow> bool" where
  "agree s = (dom (stateByID s) = live_ids s)"

text \<open>
  Every progress callback in the run is for an operation that is in the live list when
  the callback arrives.
\<close>

fun live_progress :: "store \<Rightarrow> event list \<Rightarrow> bool" where
  "live_progress s [] = True"
| "live_progress s (e # es) =
     ((case e of Progress r _ _ \<Rightarrow> repo_id r \<in> live_ids s | _ \<Rightarrow> True)
      \<and> live_progress (step e s) es)"

text \<open>
  What holds of the list in every state the store reaches: ids are pairwise distinct
  and below the counter.
\<close>

definition wf_store :: "store \<Rightarrow> bool" where
  "wf_store s = (distinct (map repo_id (repositories s))
           \<and> list_all (\<lambda>r. repo_id r < CloningRepositoryID s) (repositories s))"

section \<open>Fetching (lib/git/fetch.ts)\<close>

text \<open>The fields of \<open>IRemote\<close> and \<open>Branch\<close> that the functions read.\<close>

record IRemote =
  remote_name :: string
  remote_url :: string

record Branch =
  branch_name :: string
  upstream :: "string option"

text \<open>
  \<open>getFetchArgs\<close>. \<open>networkArguments\<close> is what \<open>gitNetworkArguments(repository, account)\<close>
  yields and \<open>enableRecurseSubmodulesFlag\<close> what the feature flag of that name returns;
  both come from modules outside these sources. \<open>progressCallback\<close> says whether a
  callback was passed (\<open>progressCallback != null\<close>).
\<close>

definition getFetchArgs :: "string list \<Rightarrow> bool \<Rightarrow> string \<Rightarrow> bool \<Rightarrow> string list" where
  "getFetchArgs networkArguments enableRecurseSubmodulesFlag remote progressCallback =
     (if enableRecurseSubmodulesFlag
      then (if progressCallback
            then networkArguments @
                   [''fetch'', ''--progress'', ''--prune'', ''--recurse-submodules=on-demand'', remote]
            else networkArguments @
                   [''fetch'', ''--prune'', ''--recurse-submodules=on-demand'', remote])
      else (if progressCallback
            then networkArguments @ [''fetch'', ''--progress'', ''--prune'', remote]
            else networkArguments @ [''fetch'', ''--prune'', remote]))"

text \<open>
  A parsed line of the progress stream, as \<open>fetch\<close> reads it: its \<open>kind\<close>, its
  \<open>percent\<close>, its \<open>text\<close> (read when the kind is not \<open>progress\<close>) and the \<open>text\<close> of its
  \<open>details\<close> (read when the kind is \<open>progress\<close>).
\<close>

record git_progress =
  progress_kind :: string
  percent :: real
  text_of :: string
  details_text :: string

text \<open>
  The event handed to the caller's callback: \<open>kind\<close>, \<open>title\<close>, the optional
  \<open>description\<close>, \<open>value\<close> and \<open>remote\<close>.
\<close>

record IFetchProgress =
  fetch_kind :: string
  title :: string
  description :: "string option"
  progress_value :: real
  remote_of :: string

text \<open>
  The function \<open>fetch\<close> passes to \<open>executionOptionsWithProgress\<close>, for one parsed line:
  \<open>None\<close> when it returns without calling the caller's callback, otherwise the event it
  calls the callback with.
\<close>

definition fetch_progress :: "IRemote \<Rightarrow> git_progress \<Rightarrow> IFetchProgress option" where
  "fetch_progress remote progress =
     (if progress_kind progress = ''context''
         \<and> \<not> prefix ''remote: Counting objects'' (text_of progress)
      then None
      else Some \<lparr>fetch_kind = ''fetch'',
                 title = ''Fetching '' @ remote_name remote,
                 description = Some (if progress_kind progress = ''progress''
                                     then details_text progress else text_of progress),
                 progress_value = percent progress,
                 remote_of = remote_name remote\<rparr>)"

text \<open>
  The execution options the functions build: the exit codes that count as success,
  the LFS flag, and the progress function attached by \<open>executionOptionsWithProgress\<close>.
  The environment (\<open>env\<close>) comes from a module outside these sources and plays no part
  in what follows; it is left out.
\<close>

record IGitExecutionOptions =
  successExitCodes :: "int set"
  trackLFSProgress :: bool
  processCallback :: "(git_progress \<Rightarrow> IFetchProgress option) option"

record IGitResult =
  exitCode :: int
  combinedOutput :: string

text \<open>
  What a call does that can be observed from outside, in order: a call of the caller's
  progress callback, the start of the git process with its arguments and the name of
  the operation, the exit of the process.
\<close>

datatype effect =
    ProgressCallback IFetchProgress
  | GitStarted "string list" string
  | GitExited int

text \<open>
  Modelled from the spec: \<open>executionOptionsWithProgress\<close> (module \<open>../progress\<close>, not in
  these sources) returns the options with the progress function attached, so that the
  runner feeds every parsed line of the process to it.
\<close>

definition executionOptionsWithProgress ::
  "IGitExecutionOptions \<Rightarrow> (git_progress \<Rightarrow> IFetchProgress option) \<Rightarrow> IGitExecutionOptions" where
  "executionOptionsWithProgress opts progressCallback =
     opts\<lparr>processCallback := Some progressCallback\<rparr>"

text \<open>
  The runner \<open>git(args, path, name, options)\<close> of module \<open>./core\<close> is a parameter of the
  functions below: it maps the arguments, the operation's name and the options to what
  it does and to how its promise settles. The working directory \<open>repository.path\<close> is
  passed through unchanged and is left out.
\<close>

type_synonym runner =
  "string list \<Rightarrow> string \<Rightarrow> IGitExecutionOptions \<Rightarrow> effect list \<times> (error + IGitResult)"

text \<open>
  \<open>fetch\<close>. With a callback the options get the progress function and the callback is
  called with the initial event; then the arguments are built and the runner is
  awaited. A rejection of the runner is the rejection of \<open>fetch\<close>. The other awaited
  calls (\<open>envForRemoteOperation\<close>, \<open>executionOptionsWithProgress\<close>,
  \<open>gitNetworkArguments\<close>) are taken to yield their values.
\<close>

definition fetch :: "runner \<Rightarrow> string list \<Rightarrow> bool \<Rightarrow> IRemote \<Rightarrow> bool
    \<Rightarrow> effect list \<times> (error + unit)" where
  "fetch git networkArguments enableRecurseSubmodulesFlag remote progressCallback =
     (let opts = \<lparr>successExitCodes = {0}, trackLFSProgress = False, processCallback = None\<rparr>;
          (opts, initial) =
            (if progressCallback
             then (executionOptionsWithProgress (opts\<lparr>trackLFSProgress := True\<rparr>)
                     (fetch_progress remote),
                   [ProgressCallback
                      \<lparr>fetch_kind = ''fetch'',
                       title = ''Fetching '' @ remote_name remote,
                       description = None,
                       progress_value = 0,
                       remote_of = remote_name remote\<rparr>])
             else (opts, []));
          args = getFetchArgs networkArguments enableRecurseSubmodulesFlag
                   (remote_name remote) progressCallback;
          (effects, result) = git args ''fetch'' opts
      in (initial @ effects, case result of Inl e \<Rightarrow> Inl e | Inr _ \<Rightarrow> Inr ()))"

text \<open>\<open>fetchRefspec\<close>.\<close>

definition fetchRefspec :: "runner \<Rightarrow> string list \<Rightarrow> IRemote \<Rightarrow> string
    \<Rightarrow> effect list \<times> (error + unit)" where
  "fetchRefspec git networkArguments remote refspec =
     (let options = \<lparr>successExitCodes = {0, 128}, trackLFSProgress = False,
                     processCallback = None\<rparr>;
          args = networkArguments @ [''fetch'', remote_name remote, refspec];
          (effects, result) = git args ''fetchRefspec'' options
      in (effects, case result of Inl e \<Rightarrow> Inl e | Inr _ \<Rightarrow> Inr ()))"

text \<open>
  What the external process does for a given argument list: its exit code, its
  combined output, and the parsed lines of its progress stream in arrival order.
\<close>

record process_run =
  exit_code :: int
  output_text :: string
  progress_items :: "git_progress list"

text \<open>
  Modelled from the spec: the runner \<open>git\<close> (module \<open>./core\<close>, not in these sources) starts
  the external command with the argument list, feeds every parsed line to the progress
  function of the options, once and in arrival order, before the exit is known,
  settles only after the process has exited, and fails with \<open>ExternalProcessError\<close>
  when the exit code is not in the declared set of the options.
\<close>

definition git :: "(string list \<Rightarrow> process_run) \<Rightarrow> runner" where
  "git exec args name opts =
     (let r = exec args
      in (GitStarted args name
            # (case processCallback opts of
                 None \<Rightarrow> []
               | Some sink \<Rightarrow> map ProgressCallback (List.map_filter sink (progress_items r)))
            @ [GitExited (exit_code r)],
          if exit_code r \<in> successExitCodes opts
          then Inr \<lparr>exitCode = exit_code r, combinedOutput = output_text r\<rparr>
          else Inl (ExternalProcessError (exit_code r))))"

subsection \<open>fastForwardBranches: reading the output\<close>

text \<open>
  The part of \<open>fastForwardBranches\<close> after \<open>await git(...)\<close>; \<open>combined\<close> is
  \<open>result.combinedOutput\<close>.

  \<open>pieces_of\<close> is \<open>line.split(' ').filter(piece => piece.length > 0)\<close>.
\<close>

definition pieces_of :: "string \<Rightarrow> string list" where
  "pieces_of line = filter (\<lambda>piece. length piece > 0) (split_js line '' '')"

text \<open>
  The loop over the lines, with the map \<open>updatedBranches\<close> it fills. \<open>pieces ! 0\<close> is
  read only when \<open>pieces\<close> is not empty, and the last index is then in range. The value
  stored is \<open>pieces[0].split('..')[1]\<close>, which JavaScript leaves \<open>undefined\<close> (\<open>None\<close>)
  when the split has fewer than two parts.
\<close>

fun updatedBranches_loop ::
  "string list \<Rightarrow> (string \<rightharpoonup> string option) \<Rightarrow> (string \<rightharpoonup> string option)" where
  "updatedBranches_loop [] updatedBranches = updatedBranches"
| "updatedBranches_loop (line # lines) updatedBranches =
     (let pieces = pieces_of line
      in if length pieces = 0 then updatedBranches_loop lines updatedBranches
         else if indexOf (pieces ! 0) ''..'' < 0
         then updatedBranches_loop lines updatedBranches
         else (let to = at_index (split_js (pieces ! 0) ''..'') 1
               in updatedBranches_loop lines
                    (updatedBranches(pieces ! (length pieces - 1) \<mapsto> to))))"

text \<open>The lines the loop runs over: the split output after the two \<open>splice\<close> calls.\<close>

definition output_lines :: "string \<Rightarrow> string list" where
  "output_lines combined =
     (let lines = split_js combined ''\<newline>'';
          lines = splice_js 0 1 lines;
          lines = splice_js (- 1) 1 lines
      in lines)"

definition updatedBranches :: "string \<Rightarrow> (string \<rightharpoonup> string option)" where
  "updatedBranches combined = updatedBranches_loop (output_lines combined) Map.empty"

definition fastForwardBranches :: "string \<Rightarrow> Branch list \<Rightarrow> Branch list" where
  "fastForwardBranches combined branches =
     filter (\<lambda>branch. updatedBranches combined (branch_name branch) \<noteq> None) branches"


subsection \<open>Lines and tokens in the spec's words\<close>





function lines_of :: "string \<Rightarrow> string list" where
  "lines_of s =
     (if CHR ''\<newline>'' \<in> set s
      then takeWhile (\<lambda>c. c \<noteq> CHR ''\<newline>'') s
             # lines_of (tl (dropWhile (\<lambda>c. c \<noteq> CHR ''\<newline>'') s))
      else [])"
  by pat_completeness auto
termination
proof (relation "measure length")
  show "Wellfounded.wf (measure (length :: string \<Rightarrow> nat))" by simp
next
  fix s :: string
  assume "CHR ''\<newline>'' \<in> set s"
  then have "dropWhile (\<lambda>c. c \<noteq> CHR ''\<newline>'') s \<noteq> []"
    by (simp add: dropWhile_eq_Nil_conv)
  then have "length (tl (dropWhile (\<lambda>c. c \<noteq> CHR ''\<newline>'') s))
               < length (dropWhile (\<lambda>c. c \<noteq> CHR ''\<newline>'') s)"
    by simp
  also have "\<dots> \<le> length s"
    by (rule length_dropWhile_le)
  finally show "(tl (dropWhile (\<lambda>c. c \<noteq> CHR ''\<newline>'') s), s) \<in> measure length"
    by simp
qed

declare lines_of.simps [simp del]


section \<open>Lemmas on the primitives\<close>

lemma findIndex_ge: "- 1 \<le> findIndex p xs"
  by (induction xs) (auto simp: Let_def)

lemma findIndex_neg_iff: "findIndex p xs < 0 \<longleftrightarrow> (\<forall>x \<in> set xs. \<not> p x)"
  by (induction xs) (auto simp: Let_def)

lemma splice_0_1: "splice_js 0 1 xs = tl xs"
  by (cases xs) (simp_all add: splice_js_def)

lemma splice_last_1: "splice_js (- 1) 1 xs = butlast xs"
proof (cases "xs = []")
  case True
  then show ?thesis by (simp add: splice_js_def)
next
  case False
  then have "nat (max (int (length xs) + - 1) 0) = length xs - 1"
    by (cases xs) auto
  then show ?thesis
    using False by (simp add: splice_js_def Let_def butlast_conv_take)
qed

lemma splice_Cons_Suc:
  "0 \<le> i \<Longrightarrow> splice_js (i + 1) n (x # xs) = x # splice_js i n xs"
proof -
  assume i: "0 \<le> i"
  have "nat (min (i + 1) (int (length (x # xs)))) = Suc (nat (min i (int (length xs))))"
    using i by auto
  then show ?thesis
    using i by (simp add: splice_js_def Let_def)
qed

lemma findIndex_splice_filter:
  "distinct (map f xs) \<Longrightarrow>
   (let i = findIndex (\<lambda>x. f x = k) xs in if i > - 1 then splice_js i 1 xs else xs)
     = filter (\<lambda>x. f x \<noteq> k) xs"
proof (induction xs)
  case Nil
  then show ?case by simp
next
  case (Cons x xs)
  show ?case
  proof (cases "f x = k")
    case True
    then have "\<forall>y \<in> set xs. f y \<noteq> k"
      using Cons.prems by (auto simp: image_iff)
    then have "filter (\<lambda>y. f y \<noteq> k) xs = xs"
      by (simp add: filter_id_conv)
    then show ?thesis
      using True splice_0_1 [of "x # xs"] by simp
  next
    case False
    have ih: "(let i = findIndex (\<lambda>x. f x = k) xs in if i > - 1 then splice_js i 1 xs else xs)
                = filter (\<lambda>x. f x \<noteq> k) xs"
      using Cons by simp
    show ?thesis
    proof (cases "findIndex (\<lambda>x. f x = k) xs < 0")
      case True
      then show ?thesis
        using False ih by (simp add: Let_def)
    next
      case nonneg: False
      then have "0 \<le> findIndex (\<lambda>x. f x = k) xs" by simp
      then show ?thesis
        using False ih nonneg by (simp add: Let_def splice_Cons_Suc)
    qed
  qed
qed

section \<open>Lemmas on the store\<close>

lemma remove_stateByID: "stateByID (remove r s) = (stateByID s)(repo_id r := None)"
  by (simp add: remove_def Let_def emitUpdate_def)

lemma remove_emitted: "emitted (remove r s) = emitted s + 1"
  by (simp add: remove_def Let_def emitUpdate_def)

lemma remove_counter: "CloningRepositoryID (remove r s) = CloningRepositoryID s"
  by (simp add: remove_def Let_def emitUpdate_def)

lemma remove_repositories_absent:
  "repo_id r \<notin> live_ids s \<Longrightarrow> repositories (remove r s) = repositories s"
proof -
  assume "repo_id r \<notin> live_ids s"
  then have "\<forall>x \<in> set (repositories s). \<not> repo_id x = repo_id r"
    by (auto simp: live_ids_def image_iff)
  then have "findIndex (\<lambda>x. repo_id x = repo_id r) (repositories s) < 0"
    by (simp only: findIndex_neg_iff)
  then show ?thesis
    by (simp add: remove_def Let_def emitUpdate_def)
qed

lemma remove_repositories:
  "distinct (map repo_id (repositories s)) \<Longrightarrow>
   repositories (remove r s) = filter (\<lambda>x. repo_id x \<noteq> repo_id r) (repositories s)"
  using findIndex_splice_filter [of repo_id "repositories s" "repo_id r"]
  by (simp add: remove_def Let_def emitUpdate_def del: One_nat_def split: if_splits)

lemma remove_live_ids:
  "wf_store s \<Longrightarrow> live_ids (remove r s) = live_ids s - {repo_id r}"
  by (auto simp: wf_store_def live_ids_def remove_repositories)

lemma clone_fst: "fst (clone u p s) = \<lparr>repo_id = CloningRepositoryID s, path = p, url = u\<rparr>"
  by (simp add: clone_def new_CloningRepository_def)

lemma clone_repositories:
  "repositories (snd (clone u p s)) = repositories s @ [fst (clone u p s)]"
  by (simp add: clone_def new_CloningRepository_def emitUpdate_def)

lemma clone_stateByID:
  "stateByID (snd (clone u p s)) =
     (stateByID s)(CloningRepositoryID s \<mapsto>
        \<lparr>output_line = ''Cloning into '' @ p, progressValue = None\<rparr>)"
  by (simp add: clone_def new_CloningRepository_def emitUpdate_def)

lemma clone_counter:
  "CloningRepositoryID (snd (clone u p s)) = CloningRepositoryID s + 1"
  by (simp add: clone_def new_CloningRepository_def emitUpdate_def)

lemma clone_emitted: "emitted (snd (clone u p s)) = emitted s + 1"
  by (simp add: clone_def new_CloningRepository_def emitUpdate_def)

lemma clone_progress_stateByID:
  "stateByID (clone_progress r line pv s) =
     (stateByID s)(repo_id r \<mapsto> \<lparr>output_line = line, progressValue = pv\<rparr>)"
  by (cases pv) (simp_all add: clone_progress_def emitUpdate_def)

lemma clone_progress_repositories:
  "repositories (clone_progress r line pv s) = repositories s"
  by (cases pv) (simp_all add: clone_progress_def emitUpdate_def)

lemma clone_progress_counter:
  "CloningRepositoryID (clone_progress r line pv s) = CloningRepositoryID s"
  by (cases pv) (simp_all add: clone_progress_def emitUpdate_def)

lemma clone_progress_emitted:
  "emitted (clone_progress r line pv s) = emitted s + 1"
  by (cases pv) (simp_all add: clone_progress_def emitUpdate_def)

lemma clone_settled_Fulfilled:
  "clone_settled r Fulfilled s = (Fulfilled, remove r s)"
  by (simp add: clone_settled_def promise_then_def)

lemma clone_settled_Rejected:
  "clone_settled r (Rejected e) s = (Rejected e, s)"
  by (simp add: clone_settled_def promise_then_def)

lemma wf_new_store: "wf_store (new_store c)"
  by (simp add: wf_store_def new_store_def)

lemma agree_new_store: "agree (new_store c)"
  by (simp add: agree_def live_ids_def new_store_def)

lemma wf_clone: "wf_store s \<Longrightarrow> wf_store (snd (clone u p s))"
  by (auto simp: wf_store_def clone_repositories clone_counter clone_fst list_all_iff)

lemma wf_clone_progress: "wf_store s \<Longrightarrow> wf_store (clone_progress r line pv s)"
  by (simp add: wf_store_def clone_progress_repositories clone_progress_counter)

lemma wf_remove: "wf_store s \<Longrightarrow> wf_store (remove r s)"
  by (auto simp: wf_store_def remove_repositories remove_counter list_all_iff distinct_map_filter)

lemma wf_step: "wf_store s \<Longrightarrow> wf_store (step e s)"
proof (cases e)
  case (Settled r out)
  then show "wf_store s \<Longrightarrow> wf_store (step e s)"
    by (cases out) (simp_all add: clone_settled_Fulfilled clone_settled_Rejected wf_remove)
qed (simp_all add: wf_clone wf_clone_progress wf_remove)

lemma wf_run: "wf_store s \<Longrightarrow> wf_store (run es s)"
  by (induction es arbitrary: s) (simp_all add: wf_step)

lemma counter_step: "CloningRepositoryID s \<le> CloningRepositoryID (step e s)"
proof (cases e)
  case (Settled r out)
  then show ?thesis
    by (cases out) (simp_all add: clone_settled_Fulfilled clone_settled_Rejected remove_counter)
qed (simp_all add: clone_counter clone_progress_counter remove_counter)

lemma counter_run: "CloningRepositoryID s \<le> CloningRepositoryID (run es s)"
proof (induction es arbitrary: s)
  case Nil
  then show ?case by simp
next
  case (Cons e es)
  have "CloningRepositoryID s \<le> CloningRepositoryID (step e s)"
    by (rule counter_step)
  also have "\<dots> \<le> CloningRepositoryID (run es (step e s))"
    by (rule Cons.IH)
  finally show ?case by simp
qed

lemma agree_clone: "agree s \<Longrightarrow> agree (snd (clone u p s))"
  by (simp add: agree_def live_ids_def clone_repositories clone_stateByID clone_fst)

lemma agree_clone_progress:
  "agree s \<Longrightarrow> repo_id r \<in> live_ids s \<Longrightarrow> agree (clone_progress r line pv s)"
  by (auto simp: agree_def live_ids_def clone_progress_repositories clone_progress_stateByID)

lemma agree_remove: "wf_store s \<Longrightarrow> agree s \<Longrightarrow> agree (remove r s)"
  by (simp add: agree_def remove_live_ids remove_stateByID)

lemma agree_step:
  "wf_store s \<Longrightarrow> agree s \<Longrightarrow> live_progress s [e] \<Longrightarrow> agree (step e s)"
proof (cases e)
  case (Settled r out)
  then show "wf_store s \<Longrightarrow> agree s \<Longrightarrow> live_progress s [e] \<Longrightarrow> agree (step e s)"
    by (cases out) (simp_all add: clone_settled_Fulfilled clone_settled_Rejected agree_remove)
qed (simp_all add: agree_clone agree_clone_progress agree_remove)

lemma agree_run:
  "wf_store s \<Longrightarrow> agree s \<Longrightarrow> live_progress s es \<Longrightarrow> agree (run es s)"
proof (induction es arbitrary: s)
  case Nil
  then show ?case by simp
next
  case (Cons e es)
  from Cons.prems have "live_progress s [e]" and rest: "live_progress (step e s) es"
    by simp_all
  with Cons.prems have "agree (step e s)"
    by (simp add: agree_step)
  moreover have "wf_store (step e s)"
    using Cons.prems by (simp add: wf_step)
  ultimately show ?case
    using rest Cons.IH by simp
qed

section \<open>Lemmas on reading the output\<close>

lemma split_from_nonempty: "split_from sep cur s \<noteq> []"
  by (induction sep cur s rule: split_from.induct) auto

lemma split_from_space_free:
  "CHR '' '' \<notin> set cur \<Longrightarrow> \<forall>p \<in> set (split_from '' '' cur s). CHR '' '' \<notin> set p"
proof (induction s arbitrary: cur)
  case Nil
  then show ?case by simp
next
  case (Cons c cs)
  show ?case
  proof (cases "c = CHR '' ''")
    case True
    then show ?thesis
      using Cons.prems Cons.IH [of "[]"] by simp
  next
    case False
    then show ?thesis
      using Cons.prems Cons.IH [of "cur @ [c]"] by simp
  qed
qed

lemma pieces_of_tokens: "p \<in> set (pieces_of l) \<Longrightarrow> p \<noteq> [] \<and> CHR '' '' \<notin> set p"
  using split_from_space_free [of "[]" l] by (auto simp: pieces_of_def split_js_def)

lemma split_from_join:
  "concat (map (\<lambda>p. p @ sep) (butlast (split_from sep cur s))) @ last (split_from sep cur s)
     = cur @ s"
proof (induction sep cur s rule: split_from.induct)
  case (1 sep cur)
  then show ?case by simp
next
  case (2 sep cur c cs)
  show ?case
  proof (cases "sep \<noteq> [] \<and> prefix sep (c # cs)")
    case True
    then have rejoin: "sep @ drop (length sep) (c # cs) = c # cs"
      by (auto simp: prefix_def)
    have ne: "split_from sep [] (drop (length sep) (c # cs)) \<noteq> []"
      by (rule split_from_nonempty)
    have "concat (map (\<lambda>p. p @ sep) (butlast (split_from sep [] (drop (length sep) (c # cs)))))
            @ last (split_from sep [] (drop (length sep) (c # cs)))
          = drop (length sep) (c # cs)"
      using "2.IH"(1) True by simp
    then have "cur @ sep @ concat (map (\<lambda>p. p @ sep) (butlast (split_from sep [] (drop (length sep) (c # cs)))))
            @ last (split_from sep [] (drop (length sep) (c # cs))) = cur @ c # cs"
      using rejoin by simp
    then show ?thesis
      using True ne by simp
  next
    case False
    then show ?thesis
      using "2.IH"(2) by auto
  qed
qed












lemma output_lines_eq: "output_lines out = butlast (tl (split_js out ''\<newline>''))"
  by (simp add: output_lines_def Let_def splice_0_1 splice_last_1 del: One_nat_def)



section \<open>The parser against the spec's lines and tokens\<close>









lemma split_from_lines:
  "butlast (split_from ''\<newline>'' cur s)
     = (if CHR ''\<newline>'' \<in> set s
        then (cur @ takeWhile (\<lambda>c. c \<noteq> CHR ''\<newline>'') s)
               # lines_of (tl (dropWhile (\<lambda>c. c \<noteq> CHR ''\<newline>'') s))
        else [])"
proof (induction s arbitrary: cur)
  case Nil
  then show ?case by simp
next
  case (Cons c cs)
  show ?case
  proof (cases "c = CHR ''\<newline>''")
    case True
    have "butlast (split_from ''\<newline>'' [] cs) = lines_of cs"
      using Cons.IH [of "[]"] by (subst lines_of.simps) simp
    then show ?thesis
      using True split_from_nonempty [of "''\<newline>''" "[]" cs] by simp
  next
    case False
    then show ?thesis
      using Cons.IH [of "cur @ [c]"] by simp
  qed
qed

lemma split_js_lines: "butlast (split_js s ''\<newline>'') = lines_of s"
  using split_from_lines [of "[]" s] by (subst lines_of.simps) (simp add: split_js_def)

lemma output_lines_spec: "output_lines out = tl (lines_of out)"
  by (simp add: output_lines_eq butlast_tl split_js_lines)




section \<open>Lemmas on fetch with the modelled runner\<close>

lemma initial_not_delivered:
  "ProgressCallback \<lparr>fetch_kind = k, title = t, description = None, progress_value = v,
                     remote_of = r\<rparr>
     \<notin> set (map ProgressCallback (List.map_filter (fetch_progress remote) items))"
  by (auto simp: fetch_progress_def List.map_filter_def split: if_splits)

lemma fetch_git_trace:
  "fst (fetch (git exec) na rs remote True)
     = ProgressCallback \<lparr>fetch_kind = ''fetch'', title = ''Fetching '' @ remote_name remote,
                         description = None, progress_value = 0,
                         remote_of = remote_name remote\<rparr>
       # GitStarted (getFetchArgs na rs (remote_name remote) True) ''fetch''
       # map ProgressCallback
           (List.map_filter (fetch_progress remote)
              (progress_items (exec (getFetchArgs na rs (remote_name remote) True))))
       @ [GitExited (exit_code (exec (getFetchArgs na rs (remote_name remote) True)))]"
  by (simp add: fetch_def git_def executionOptionsWithProgress_def Let_def split: prod.splits)

lemma fetch_git_initial_once:
  "count_list (fst (fetch (git exec) na rs remote True))
       (ProgressCallback \<lparr>fetch_kind = ''fetch'', title = ''Fetching '' @ remote_name remote,
                         description = None, progress_value = 0,
                         remote_of = remote_name remote\<rparr>) = 1"
  using initial_not_delivered
  by (simp add: fetch_git_trace count_list_0_iff)

section \<open>The claims\<close>

lemmas store_eval =
  clone_def new_CloningRepository_def emitUpdate_def new_store_def remove_def
  clone_progress_def clone_settled_def promise_then_def live_ids_def splice_js_def
  Let_def agree_def

subsection \<open>C1: what the store does when a clone settles\<close>

text \<open>
  The fulfilment path: in a store reached from the empty one by any steps, for an
  operation started by \<open>clone\<close> and any steps after that, the fulfilment of the external
  clone settles the returned promise as fulfilled, takes the operation out of the list
  and the state of its id out of the map, leaves every other operation and every other
  state as it is, and sends exactly one notification.
\<close>

lemma clone_fulfilled_removes:
  assumes "s = run es0 (new_store c)"
    and "clone u p s = (r, s1)"
    and "s2 = run es s1"
    and "clone_settled r Fulfilled s2 = (settled, s3)"
  shows "settled = Fulfilled
    \<and> r \<notin> set (repositories s3)
    \<and> repo_id r \<notin> live_ids s3
    \<and> repositories s3 = filter (\<lambda>x. repo_id x \<noteq> repo_id r) (repositories s2)
    \<and> stateByID s3 = (stateByID s2)(repo_id r := None)
    \<and> CloningRepositoryID s3 = CloningRepositoryID s2
    \<and> emitted s3 = emitted s2 + 1"
proof -
  have "wf_store s"
    using assms(1) by (simp add: wf_run wf_new_store)
  then have "wf_store (snd (clone u p s))"
    by (rule wf_clone)
  then have w2: "wf_store s2"
    using assms(2,3) by (simp add: wf_run)
  have s3: "s3 = remove r s2" and out: "settled = Fulfilled"
    using assms(4) by (simp_all add: clone_settled_Fulfilled)
  have ids: "repo_id r \<notin> live_ids s3"
    using w2 by (simp add: s3 remove_live_ids)
  then have "r \<notin> set (repositories s3)"
    by (auto simp: live_ids_def)
  moreover have "repositories s3 = filter (\<lambda>x. repo_id x \<noteq> repo_id r) (repositories s2)"
    using w2 by (simp add: s3 wf_store_def remove_repositories)
  ultimately show ?thesis
    using ids out by (simp add: s3 remove_stateByID remove_emitted remove_counter)
qed

text \<open>
  C1 says that the operation and its state are removed, and a final notification sent,
  when the external clone settles, whether it is fulfilled or rejected. \<open>clone\<close> reacts
  to the promise with \<open>then\<close> and a fulfilment handler only: the removal above is not
  done when the promise is rejected.

  C1 at a clone of \<open>u\<close> into \<open>p\<close> in the empty store whose external operation is
  rejected: the store after the rejection is the store before it. The operation is
  still in the list, which the source documents as the repositories currently being
  cloned, its state is still in the map, no notification is sent, and the returned
  promise is rejected with the same reason.
\<close>

theorem clone_rejected_keeps_operation:
  "clone ''u'' ''p'' (new_store 1)
     = (\<lparr>repo_id = 1, path = ''p'', url = ''u''\<rparr>,
        \<lparr>CloningRepositoryID = 2,
         repositories = [\<lparr>repo_id = 1, path = ''p'', url = ''u''\<rparr>],
         stateByID = [1 \<mapsto> \<lparr>output_line = ''Cloning into p'', progressValue = None\<rparr>],
         emitted = 1\<rparr>)
   \<and> clone_settled \<lparr>repo_id = 1, path = ''p'', url = ''u''\<rparr>
        (Rejected (ExternalProcessError 128))
        \<lparr>CloningRepositoryID = 2,
         repositories = [\<lparr>repo_id = 1, path = ''p'', url = ''u''\<rparr>],
         stateByID = [1 \<mapsto> \<lparr>output_line = ''Cloning into p'', progressValue = None\<rparr>],
         emitted = 1\<rparr>
     = (Rejected (ExternalProcessError 128),
        \<lparr>CloningRepositoryID = 2,
         repositories = [\<lparr>repo_id = 1, path = ''p'', url = ''u''\<rparr>],
         stateByID = [1 \<mapsto> \<lparr>output_line = ''Cloning into p'', progressValue = None\<rparr>],
         emitted = 1\<rparr>)"
  by (simp add: store_eval)

subsection \<open>C2: which branches fastForwardBranches returns\<close>




subsection \<open>C3: the example of the fast-forward output\<close>

text \<open>
  C3 gives the output \<open>From .\<close>, then \<open>+ 1111111..2222222  refs/heads/main  main\<close>, then a
  newline, with \<open>main\<close> and \<open>dev\<close> requested, and expects \<open>main\<close> with the new id
  \<open>2222222\<close>.

  C3 as it holds: when the range is the first token of the line, that is without the
  token \<open>+\<close> before it, the result is \<open>main\<close> alone, the map holds \<open>2222222\<close> for \<open>main\<close>
  and nothing for \<open>dev\<close>.
\<close>

theorem fastForwardBranches_example_range_first:
  "fastForwardBranches ''From .\<newline> 1111111..2222222  refs/heads/main  main\<newline>''
     [\<lparr>branch_name = ''main'', upstream = Some ''origin/main''\<rparr>,
      \<lparr>branch_name = ''dev'', upstream = Some ''origin/dev''\<rparr>]
     = [\<lparr>branch_name = ''main'', upstream = Some ''origin/main''\<rparr>]
   \<and> updatedBranches ''From .\<newline> 1111111..2222222  refs/heads/main  main\<newline>'' ''main''
     = Some (Some ''2222222'')
   \<and> updatedBranches ''From .\<newline> 1111111..2222222  refs/heads/main  main\<newline>'' ''dev'' = None"
  by code_simp

text \<open>
  C3 fails as stated: in the line of the claim the first token is \<open>+\<close>, which contains
  no \<open>..\<close>, so the line is skipped and the result is empty.
\<close>

theorem fastForwardBranches_example_plus_flag:
  "fastForwardBranches ''From .\<newline>+ 1111111..2222222  refs/heads/main  main\<newline>''
     [\<lparr>branch_name = ''main'', upstream = Some ''origin/main''\<rparr>,
      \<lparr>branch_name = ''dev'', upstream = Some ''origin/dev''\<rparr>] = []
   \<and> pieces_of ''+ 1111111..2222222  refs/heads/main  main''
     = [''+'', ''1111111..2222222'', ''refs/heads/main'', ''main'']
   \<and> indexOf ''+'' ''..'' = - 1
   \<and> updatedBranches ''From .\<newline>+ 1111111..2222222  refs/heads/main  main\<newline>'' ''main'' = None"
  by code_simp

subsection \<open>C4: the list and the state map agree\<close>

text \<open>
  C4 says that the ids with a state are the ids of the operations in the list, after
  every sequence of clone, progress and remove steps.

  C4 as it holds: starting from the empty store, after every sequence of steps (calls
  of \<open>clone\<close>, progress callbacks, settlings, calls of \<open>remove\<close>) in which each progress
  callback is for an operation that is in the list when the callback arrives, an id has
  a state exactly when an operation in the list has that id.
\<close>

theorem structures_agree_while_progress_is_live:
  assumes "live_progress (new_store c) es"
    and "s = run es (new_store c)"
  shows "agree s
    \<and> (\<forall>k. (stateByID s k \<noteq> None) = (k \<in> set (map repo_id (repositories s))))"
proof -
  have "agree s"
    using assms by (simp add: agree_run wf_new_store agree_new_store)
  then show ?thesis
    by (auto simp: agree_def live_ids_def dom_def)
qed

text \<open>
  The theorem at a run with two clones, a progress callback for the first and its
  removal.
\<close>

theorem structures_agree_while_progress_is_live_witness:
  "live_progress (new_store 1)
     [Clone ''u'' ''p'',
      Progress \<lparr>repo_id = 1, path = ''p'', url = ''u''\<rparr> ''Receiving objects:  10%'' (Some 0.1),
      Clone ''v'' ''q'',
      Remove \<lparr>repo_id = 1, path = ''p'', url = ''u''\<rparr>]
   \<and> agree (run
     [Clone ''u'' ''p'',
      Progress \<lparr>repo_id = 1, path = ''p'', url = ''u''\<rparr> ''Receiving objects:  10%'' (Some 0.1),
      Clone ''v'' ''q'',
      Remove \<lparr>repo_id = 1, path = ''p'', url = ''u''\<rparr>] (new_store 1))"
proof -
  let ?es = "[Clone ''u'' ''p'',
      Progress \<lparr>repo_id = 1, path = ''p'', url = ''u''\<rparr> ''Receiving objects:  10%'' (Some 0.1),
      Clone ''v'' ''q'',
      Remove \<lparr>repo_id = 1, path = ''p'', url = ''u''\<rparr>]"
  have h: "live_progress (new_store 1) ?es"
    by (simp add: store_eval)
  from structures_agree_while_progress_is_live [OF h refl] h
  show ?thesis by simp
qed

text \<open>
  C4 fails as stated: \<open>remove\<close> does not stop the external clone, and the progress
  callback stores a state without looking at the list. After a clone, its removal and
  one more progress callback of it, the list is empty and the map has a state for id 1.
\<close>

theorem progress_after_remove_breaks_agreement:
  "\<not> agree (run
     [Clone ''u'' ''p'',
      Remove \<lparr>repo_id = 1, path = ''p'', url = ''u''\<rparr>,
      Progress \<lparr>repo_id = 1, path = ''p'', url = ''u''\<rparr> ''Receiving objects:  10%'' (Some 0.1)]
     (new_store 1))
   \<and> repositories (run
     [Clone ''u'' ''p'',
      Remove \<lparr>repo_id = 1, path = ''p'', url = ''u''\<rparr>,
      Progress \<lparr>repo_id = 1, path = ''p'', url = ''u''\<rparr> ''Receiving objects:  10%'' (Some 0.1)]
     (new_store 1)) = []
   \<and> stateByID (run
     [Clone ''u'' ''p'',
      Remove \<lparr>repo_id = 1, path = ''p'', url = ''u''\<rparr>,
      Progress \<lparr>repo_id = 1, path = ''p'', url = ''u''\<rparr> ''Receiving objects:  10%'' (Some 0.1)]
     (new_store 1)) 1
     = Some \<lparr>output_line = ''Receiving objects:  10%'', progressValue = Some 0.1\<rparr>"
  by (simp add: store_eval)

subsection \<open>C5: fetchRefspec\<close>

text \<open>
  C5: \<open>fetchRefspec\<close> calls the runner with the network arguments followed by \<open>fetch\<close>,
  the remote's name and the refspec, and nothing else (no prune flag, no progress
  flag), with the success codes 0 and 128 and no progress function. With the modelled
  runner the process is started with exactly these arguments, and the call resolves
  when the process exits with 0 or 128 and is rejected with \<open>ExternalProcessError\<close>
  for any other code.
\<close>

theorem fetchRefspec_args_and_exit_codes:
  "fetchRefspec g na remote refspec
     = (fst (g (na @ [''fetch'', remote_name remote, refspec]) ''fetchRefspec''
               \<lparr>successExitCodes = {0, 128}, trackLFSProgress = False, processCallback = None\<rparr>),
        case snd (g (na @ [''fetch'', remote_name remote, refspec]) ''fetchRefspec''
               \<lparr>successExitCodes = {0, 128}, trackLFSProgress = False, processCallback = None\<rparr>)
        of Inl e \<Rightarrow> Inl e | Inr r \<Rightarrow> Inr ())
   \<and> fst (fetchRefspec (git exec) na remote refspec)
     = [GitStarted (na @ [''fetch'', remote_name remote, refspec]) ''fetchRefspec'',
        GitExited (exit_code (exec (na @ [''fetch'', remote_name remote, refspec])))]
   \<and> (exit_code (exec (na @ [''fetch'', remote_name remote, refspec])) = 0
        \<or> exit_code (exec (na @ [''fetch'', remote_name remote, refspec])) = 128
      \<longrightarrow> snd (fetchRefspec (git exec) na remote refspec) = Inr ())
   \<and> (exit_code (exec (na @ [''fetch'', remote_name remote, refspec])) \<noteq> 0
        \<and> exit_code (exec (na @ [''fetch'', remote_name remote, refspec])) \<noteq> 128
      \<longrightarrow> snd (fetchRefspec (git exec) na remote refspec)
            = Inl (ExternalProcessError
                     (exit_code (exec (na @ [''fetch'', remote_name remote, refspec])))))"
  by (simp add: fetchRefspec_def git_def Let_def split: prod.splits)

text \<open>The theorem at a process that exits with 128.\<close>

theorem fetchRefspec_args_and_exit_codes_witness:
  "fetchRefspec
     (git (\<lambda>args. \<lparr>exit_code = 128,
                    output_text = ''fatal: no such ref'', progress_items = []\<rparr>))
     [''-c'', ''credential.helper='']
     \<lparr>remote_name = ''origin'', remote_url = ''https://example.com/r.git''\<rparr>
     ''refs/pull/1/head''
   = ([GitStarted [''-c'', ''credential.helper='', ''fetch'', ''origin'', ''refs/pull/1/head'']
         ''fetchRefspec'',
       GitExited 128],
      Inr ())
   \<and> fetchRefspec
     (git (\<lambda>args. \<lparr>exit_code = 1, output_text = ''error'', progress_items = []\<rparr>))
     [''-c'', ''credential.helper='']
     \<lparr>remote_name = ''origin'', remote_url = ''https://example.com/r.git''\<rparr>
     ''refs/pull/1/head''
   = ([GitStarted [''-c'', ''credential.helper='', ''fetch'', ''origin'', ''refs/pull/1/head'']
         ''fetchRefspec'',
       GitExited 1],
      Inl (ExternalProcessError 1))"
proof -
  let ?na = "[''-c'', ''credential.helper='']"
  let ?remote = "\<lparr>remote_name = ''origin'', remote_url = ''https://example.com/r.git''\<rparr>"
  let ?missing = "\<lambda>args :: string list.
        \<lparr>exit_code = 128, output_text = ''fatal: no such ref'', progress_items = []\<rparr>"
  let ?failing = "\<lambda>args :: string list.
        \<lparr>exit_code = 1, output_text = ''error'', progress_items = []\<rparr>"
  have a: "exit_code (?missing (?na @ [''fetch'', remote_name ?remote, ''refs/pull/1/head''])) = 128"
    by simp
  have b: "exit_code (?failing (?na @ [''fetch'', remote_name ?remote, ''refs/pull/1/head''])) \<noteq> 0
        \<and> exit_code (?failing (?na @ [''fetch'', remote_name ?remote, ''refs/pull/1/head''])) \<noteq> 128"
    by simp
  from fetchRefspec_args_and_exit_codes
         [of "git ?missing" ?na ?remote "''refs/pull/1/head''" ?missing]
       fetchRefspec_args_and_exit_codes
         [of "git ?failing" ?na ?remote "''refs/pull/1/head''" ?failing] a b
  show ?thesis
    by (simp add: git_def)
qed

subsection \<open>C6: the arguments of fetch\<close>

text \<open>
  C6: for every combination of callback and feature flag, the argument list is the
  network arguments, then \<open>fetch\<close>, then \<open>--progress\<close> exactly when a callback is
  supplied, then \<open>--prune\<close>, then the submodule flag exactly when the feature is
  enabled, then the remote's name as the last token. The flags are looked for among
  the tokens the function adds between the network arguments and the remote's name.
\<close>

theorem getFetchArgs_flags:
  "getFetchArgs na rs remote cb
     = na @ [''fetch''] @ (if cb then [''--progress''] else []) @ [''--prune'']
          @ (if rs then [''--recurse-submodules=on-demand''] else []) @ [remote]
   \<and> last (getFetchArgs na rs remote cb) = remote
   \<and> take (length na) (getFetchArgs na rs remote cb) = na
   \<and> ''--prune'' \<in> set (butlast (drop (length na) (getFetchArgs na rs remote cb)))
   \<and> (''--progress'' \<in> set (butlast (drop (length na) (getFetchArgs na rs remote cb)))) = cb
   \<and> (''--recurse-submodules=on-demand''
         \<in> set (butlast (drop (length na) (getFetchArgs na rs remote cb)))) = rs
   \<and> (cb \<and> rs \<longrightarrow>
        butlast (drop (length na) (getFetchArgs na rs remote cb))
          = [''fetch'', ''--progress'', ''--prune'', ''--recurse-submodules=on-demand''])"
  by (simp add: getFetchArgs_def)

text \<open>The theorem with a callback and the feature enabled.\<close>

theorem getFetchArgs_flags_witness:
  "getFetchArgs [''-c'', ''credential.helper=''] True ''origin'' True
     = [''-c'', ''credential.helper='', ''fetch'', ''--progress'', ''--prune'',
        ''--recurse-submodules=on-demand'', ''origin'']"
  using getFetchArgs_flags [of "[''-c'', ''credential.helper='']" True "''origin''" True]
  by simp

subsection \<open>C7: remove\<close>

text \<open>
  C7: \<open>remove\<close> has no failing branch (it is a total function on stores). In every
  store reached from the empty one, for every operation given to it, it sends exactly
  one notification, takes away the operations with that id and the state of that id
  and nothing else, changes neither list, map nor counter when the operation is not
  tracked, and a second call changes neither list, map nor counter again and sends one
  more notification.
\<close>

theorem remove_idempotent_and_notifies:
  assumes "s = run es (new_store c)"
  shows "emitted (remove r s) = emitted s + 1
    \<and> repositories (remove r s) = filter (\<lambda>x. repo_id x \<noteq> repo_id r) (repositories s)
    \<and> stateByID (remove r s) = (stateByID s)(repo_id r := None)
    \<and> (repo_id r \<notin> live_ids s \<and> stateByID s (repo_id r) = None \<longrightarrow>
         repositories (remove r s) = repositories s
         \<and> stateByID (remove r s) = stateByID s
         \<and> CloningRepositoryID (remove r s) = CloningRepositoryID s)
    \<and> repositories (remove r (remove r s)) = repositories (remove r s)
    \<and> stateByID (remove r (remove r s)) = stateByID (remove r s)
    \<and> CloningRepositoryID (remove r (remove r s)) = CloningRepositoryID (remove r s)
    \<and> emitted (remove r (remove r s)) = emitted (remove r s) + 1"
proof -
  have w: "wf_store s"
    using assms by (simp add: wf_run wf_new_store)
  have list: "repositories (remove r s) = filter (\<lambda>x. repo_id x \<noteq> repo_id r) (repositories s)"
    using w by (simp add: wf_store_def remove_repositories)
  have noop: "repo_id r \<notin> live_ids s \<and> stateByID s (repo_id r) = None \<longrightarrow>
      repositories (remove r s) = repositories s
      \<and> stateByID (remove r s) = stateByID s
      \<and> CloningRepositoryID (remove r s) = CloningRepositoryID s"
    by (auto simp: remove_repositories_absent remove_stateByID remove_counter)
  have "repo_id r \<notin> live_ids (remove r s)"
    using w by (simp add: remove_live_ids)
  then have again_list: "repositories (remove r (remove r s)) = repositories (remove r s)"
    by (rule remove_repositories_absent)
  have again_map: "stateByID (remove r (remove r s)) = stateByID (remove r s)"
    by (simp add: remove_stateByID)
  show ?thesis
    using list noop again_list again_map
    by (simp add: remove_emitted remove_stateByID remove_counter)
qed

text \<open>
  The theorem at an operation that was cloned and removed before: it is not tracked,
  the third call leaves list and map as they are and sends the third notification.
\<close>

theorem remove_idempotent_and_notifies_witness:
  "repo_id \<lparr>repo_id = 1, path = ''p'', url = ''u''\<rparr>
      \<notin> live_ids (run [Clone ''u'' ''p'', Remove \<lparr>repo_id = 1, path = ''p'', url = ''u''\<rparr>] (new_store 1))
   \<and> stateByID (run [Clone ''u'' ''p'', Remove \<lparr>repo_id = 1, path = ''p'', url = ''u''\<rparr>] (new_store 1))
        (repo_id \<lparr>repo_id = 1, path = ''p'', url = ''u''\<rparr>) = None
   \<and> repositories (remove \<lparr>repo_id = 1, path = ''p'', url = ''u''\<rparr>
        (run [Clone ''u'' ''p'', Remove \<lparr>repo_id = 1, path = ''p'', url = ''u''\<rparr>] (new_store 1)))
      = repositories (run [Clone ''u'' ''p'', Remove \<lparr>repo_id = 1, path = ''p'', url = ''u''\<rparr>] (new_store 1))
   \<and> stateByID (remove \<lparr>repo_id = 1, path = ''p'', url = ''u''\<rparr>
        (run [Clone ''u'' ''p'', Remove \<lparr>repo_id = 1, path = ''p'', url = ''u''\<rparr>] (new_store 1)))
      = stateByID (run [Clone ''u'' ''p'', Remove \<lparr>repo_id = 1, path = ''p'', url = ''u''\<rparr>] (new_store 1))
   \<and> emitted (remove \<lparr>repo_id = 1, path = ''p'', url = ''u''\<rparr>
        (run [Clone ''u'' ''p'', Remove \<lparr>repo_id = 1, path = ''p'', url = ''u''\<rparr>] (new_store 1))) = 3"
proof -
  let ?r = "\<lparr>repo_id = 1, path = ''p'', url = ''u''\<rparr>"
  let ?s = "run [Clone ''u'' ''p'', Remove ?r] (new_store 1)"
  have gone: "repo_id ?r \<notin> live_ids ?s \<and> stateByID ?s (repo_id ?r) = None"
    by (simp add: store_eval)
  have n: "emitted ?s = 2"
    by (simp add: store_eval)
  from remove_idempotent_and_notifies
         [where r = ?r and es = "[Clone ''u'' ''p'', Remove ?r]" and c = 1, OF refl] gone n
  show ?thesis by (simp add: store_eval)
qed

subsection \<open>C8: which progress lines reach the callback of fetch\<close>

text \<open>
  C8: a parsed line of kind \<open>context\<close> whose text does not begin with
  \<open>remote: Counting objects\<close> is dropped, the callback is not called; a \<open>context\<close> line
  with that prefix and every line of another kind is passed to the callback, with the
  fetch kind, the title, the line's text (for kind \<open>progress\<close> the text of its details)
  and its percentage. This function is the progress function of the options \<open>fetch\<close>
  hands to the runner.
\<close>

theorem fetch_progress_filter:
  "(progress_kind p = ''context'' \<and> \<not> prefix ''remote: Counting objects'' (text_of p)
      \<longrightarrow> fetch_progress remote p = None)
   \<and> (progress_kind p = ''context'' \<and> prefix ''remote: Counting objects'' (text_of p)
      \<longrightarrow> fetch_progress remote p
            = Some \<lparr>fetch_kind = ''fetch'', title = ''Fetching '' @ remote_name remote,
                    description = Some (text_of p), progress_value = percent p,
                    remote_of = remote_name remote\<rparr>)
   \<and> (progress_kind p \<noteq> ''context''
      \<longrightarrow> fetch_progress remote p
            = Some \<lparr>fetch_kind = ''fetch'', title = ''Fetching '' @ remote_name remote,
                    description = Some (if progress_kind p = ''progress''
                                        then details_text p else text_of p),
                    progress_value = percent p,
                    remote_of = remote_name remote\<rparr>)
   \<and> snd (fetch g na rs remote True)
       = (case snd (g (getFetchArgs na rs (remote_name remote) True) ''fetch''
                      \<lparr>successExitCodes = {0}, trackLFSProgress = True,
                       processCallback = Some (fetch_progress remote)\<rparr>)
          of Inl e \<Rightarrow> Inl e | Inr r \<Rightarrow> Inr ())"
  by (simp add: fetch_progress_def fetch_def executionOptionsWithProgress_def Let_def
           split: prod.splits)

text \<open>
  The theorem at a \<open>context\<close> line without the prefix, one with it, and a \<open>progress\<close>
  line.
\<close>

theorem fetch_progress_filter_witness:
  "fetch_progress \<lparr>remote_name = ''origin'', remote_url = ''https://example.com/r.git''\<rparr>
     \<lparr>progress_kind = ''context'', percent = 0.1,
      text_of = ''From https://example.com/r'', details_text = []\<rparr> = None
   \<and> fetch_progress \<lparr>remote_name = ''origin'', remote_url = ''https://example.com/r.git''\<rparr>
     \<lparr>progress_kind = ''context'', percent = 0.1,
      text_of = ''remote: Counting objects: 12, done.'', details_text = []\<rparr>
     = Some \<lparr>fetch_kind = ''fetch'', title = ''Fetching origin'',
             description = Some ''remote: Counting objects: 12, done.'',
             progress_value = 0.1, remote_of = ''origin''\<rparr>
   \<and> fetch_progress \<lparr>remote_name = ''origin'', remote_url = ''https://example.com/r.git''\<rparr>
     \<lparr>progress_kind = ''progress'', percent = 0.5,
      text_of = [], details_text = ''Receiving objects:  50% (6/12)''\<rparr>
     = Some \<lparr>fetch_kind = ''fetch'', title = ''Fetching origin'',
             description = Some ''Receiving objects:  50% (6/12)'',
             progress_value = 0.5, remote_of = ''origin''\<rparr>"
proof -
  let ?remote = "\<lparr>remote_name = ''origin'', remote_url = ''https://example.com/r.git''\<rparr>"
  let ?noise = "\<lparr>progress_kind = ''context'', percent = 0.1,
      text_of = ''From https://example.com/r'', details_text = []\<rparr>"
  let ?counting = "\<lparr>progress_kind = ''context'', percent = 0.1,
      text_of = ''remote: Counting objects: 12, done.'', details_text = []\<rparr>"
  let ?receiving = "\<lparr>progress_kind = ''progress'', percent = 0.5,
      text_of = [], details_text = ''Receiving objects:  50% (6/12)''\<rparr>"
  have a: "progress_kind ?noise = ''context''
           \<and> \<not> prefix ''remote: Counting objects'' (text_of ?noise)"
    by simp
  have b: "progress_kind ?counting = ''context''
           \<and> prefix ''remote: Counting objects'' (text_of ?counting)"
    by simp
  have c: "progress_kind ?receiving \<noteq> ''context''"
    by simp
  from fetch_progress_filter [where p = ?noise and remote = ?remote]
       fetch_progress_filter [where p = ?counting and remote = ?remote]
       fetch_progress_filter [where p = ?receiving and remote = ?remote] a b c
  show ?thesis by simp
qed

subsection \<open>C9: ids of operations\<close>

text \<open>
  C9: \<open>clone\<close> gives the new operation the current value of the counter and increments
  the counter. For two calls of \<open>clone\<close>, the second after any steps of the store that
  follow the first, the id of the first is smaller than the id of the second. When
  the second call follows the first at once, both operations are at the end of the
  list in the order of the calls, each has its own initial state, and a progress
  callback of one changes the state of that one and not the state of the other.
\<close>

theorem clone_ids_fresh_and_independent:
  assumes "clone u1 p1 s = (r1, s1)"
    and "clone u2 p2 (run es s1) = (r2, s2)"
  shows "repo_id r1 = CloningRepositoryID s
    \<and> CloningRepositoryID s1 = CloningRepositoryID s + 1
    \<and> repo_id r1 < repo_id r2
    \<and> r2 \<in> set (repositories s2)
    \<and> stateByID s2 (repo_id r2)
        = Some \<lparr>output_line = ''Cloning into '' @ p2, progressValue = None\<rparr>
    \<and> (es = [] \<longrightarrow>
         repositories s2 = repositories s @ [r1, r2]
         \<and> stateByID s2 (repo_id r1)
             = Some \<lparr>output_line = ''Cloning into '' @ p1, progressValue = None\<rparr>
         \<and> stateByID (clone_progress r1 line pv s2) (repo_id r1)
             = Some \<lparr>output_line = line, progressValue = pv\<rparr>
         \<and> stateByID (clone_progress r1 line pv s2) (repo_id r2) = stateByID s2 (repo_id r2)
         \<and> stateByID (clone_progress r2 line pv s2) (repo_id r2)
             = Some \<lparr>output_line = line, progressValue = pv\<rparr>
         \<and> stateByID (clone_progress r2 line pv s2) (repo_id r1) = stateByID s2 (repo_id r1))"
proof -
  have r1: "r1 = fst (clone u1 p1 s)" and s1: "s1 = snd (clone u1 p1 s)"
    using assms(1) by simp_all
  have r2: "r2 = fst (clone u2 p2 (run es s1))" and s2: "s2 = snd (clone u2 p2 (run es s1))"
    using assms(2) by simp_all
  have id1: "repo_id r1 = CloningRepositoryID s"
    by (simp add: r1 clone_fst)
  have c1: "CloningRepositoryID s1 = CloningRepositoryID s + 1"
    by (simp add: s1 clone_counter)
  have id2: "repo_id r2 = CloningRepositoryID (run es s1)"
    by (simp add: r2 clone_fst)
  have "CloningRepositoryID s1 \<le> CloningRepositoryID (run es s1)"
    by (rule counter_run)
  then have lt: "repo_id r1 < repo_id r2"
    using id1 c1 id2 by simp
  have in2: "r2 \<in> set (repositories s2)"
    by (simp add: s2 r2 clone_repositories)
  have st2: "stateByID s2 (repo_id r2)
        = Some \<lparr>output_line = ''Cloning into '' @ p2, progressValue = None\<rparr>"
    by (simp add: s2 id2 clone_stateByID)
  have both: "es = [] \<longrightarrow>
         repositories s2 = repositories s @ [r1, r2]
         \<and> stateByID s2 (repo_id r1)
             = Some \<lparr>output_line = ''Cloning into '' @ p1, progressValue = None\<rparr>"
  proof
    assume e: "es = []"
    have "repositories s2 = repositories s @ [fst (clone u1 p1 s), fst (clone u2 p2 (run es s1))]"
      using e by (simp add: s2 s1 clone_repositories)
    moreover have "stateByID s2 (CloningRepositoryID s)
             = Some \<lparr>output_line = ''Cloning into '' @ p1, progressValue = None\<rparr>"
      using e by (simp add: s2 s1 clone_stateByID clone_counter)
    ultimately show "repositories s2 = repositories s @ [r1, r2]
         \<and> stateByID s2 (repo_id r1)
             = Some \<lparr>output_line = ''Cloning into '' @ p1, progressValue = None\<rparr>"
      using id1 r1 r2 by simp
  qed
  show ?thesis
    using id1 c1 lt in2 st2 both by (simp add: clone_progress_stateByID)
qed

text \<open>The theorem at two clones in the empty store.\<close>

theorem clone_ids_fresh_and_independent_witness:
  "clone ''u'' ''p'' (new_store 1)
     = (\<lparr>repo_id = 1, path = ''p'', url = ''u''\<rparr>, snd (clone ''u'' ''p'' (new_store 1)))
   \<and> clone ''v'' ''q'' (run [] (snd (clone ''u'' ''p'' (new_store 1))))
     = (\<lparr>repo_id = 2, path = ''q'', url = ''v''\<rparr>,
        snd (clone ''v'' ''q'' (run [] (snd (clone ''u'' ''p'' (new_store 1))))))
   \<and> repositories (snd (clone ''v'' ''q'' (run [] (snd (clone ''u'' ''p'' (new_store 1))))))
     = [\<lparr>repo_id = 1, path = ''p'', url = ''u''\<rparr>, \<lparr>repo_id = 2, path = ''q'', url = ''v''\<rparr>]
   \<and> stateByID (snd (clone ''v'' ''q'' (run [] (snd (clone ''u'' ''p'' (new_store 1)))))) 1
     = Some \<lparr>output_line = ''Cloning into p'', progressValue = None\<rparr>
   \<and> stateByID (snd (clone ''v'' ''q'' (run [] (snd (clone ''u'' ''p'' (new_store 1)))))) 2
     = Some \<lparr>output_line = ''Cloning into q'', progressValue = None\<rparr>"
proof -
  let ?r1 = "\<lparr>repo_id = 1, path = ''p'', url = ''u''\<rparr>"
  let ?r2 = "\<lparr>repo_id = 2, path = ''q'', url = ''v''\<rparr>"
  let ?s1 = "snd (clone ''u'' ''p'' (new_store 1))"
  let ?s2 = "snd (clone ''v'' ''q'' (run [] ?s1))"
  have a: "clone ''u'' ''p'' (new_store 1) = (?r1, ?s1)"
    by (simp add: clone_def new_CloningRepository_def new_store_def)
  have b: "clone ''v'' ''q'' (run [] ?s1) = (?r2, ?s2)"
    by (simp add: clone_def new_CloningRepository_def new_store_def emitUpdate_def)
  have l: "repositories (new_store 1) = []"
    by (simp add: new_store_def)
  from clone_ids_fresh_and_independent [OF a b] a b l
  show ?thesis by simp
qed

subsection \<open>C10: the initial progress event of fetch\<close>

text \<open>
  C10: with a callback supplied, for every runner, what \<open>fetch\<close> does begins with one
  call of the callback with the event of kind \<open>fetch\<close>, the title, the remote's name,
  the value 0 and no description, followed by what the runner does: the call comes
  before the runner is started. Without a callback \<open>fetch\<close> does what the runner does
  and nothing before it.
\<close>

theorem fetch_initial_progress_first:
  "fst (fetch g na rs remote True)
     = ProgressCallback \<lparr>fetch_kind = ''fetch'', title = ''Fetching '' @ remote_name remote,
                         description = None, progress_value = 0,
                         remote_of = remote_name remote\<rparr>
       # fst (g (getFetchArgs na rs (remote_name remote) True) ''fetch''
                \<lparr>successExitCodes = {0}, trackLFSProgress = True,
                 processCallback = Some (fetch_progress remote)\<rparr>)
   \<and> fst (fetch g na rs remote False)
     = fst (g (getFetchArgs na rs (remote_name remote) False) ''fetch''
                \<lparr>successExitCodes = {0}, trackLFSProgress = False, processCallback = None\<rparr>)"
  by (simp add: fetch_def executionOptionsWithProgress_def Let_def split: prod.splits)

text \<open>
  The theorem with the modelled runner and a process that reports two lines: the
  initial event is first, before the start of the process.
\<close>

theorem fetch_initial_progress_first_witness:
  "fst (fetch
     (git (\<lambda>args. \<lparr>exit_code = 0, output_text = [],
                    progress_items =
                      [\<lparr>progress_kind = ''context'', percent = 0,
                        text_of = ''From https://example.com/r'', details_text = []\<rparr>,
                       \<lparr>progress_kind = ''progress'', percent = 0.5, text_of = [],
                        details_text = ''Receiving objects:  50% (6/12)''\<rparr>]\<rparr>))
     [] False \<lparr>remote_name = ''origin'', remote_url = ''https://example.com/r.git''\<rparr> True)
   = [ProgressCallback \<lparr>fetch_kind = ''fetch'', title = ''Fetching origin'',
                         description = None, progress_value = 0, remote_of = ''origin''\<rparr>,
      GitStarted [''fetch'', ''--progress'', ''--prune'', ''origin''] ''fetch'',
      ProgressCallback \<lparr>fetch_kind = ''fetch'', title = ''Fetching origin'',
                         description = Some ''Receiving objects:  50% (6/12)'',
                         progress_value = 0.5, remote_of = ''origin''\<rparr>,
      GitExited 0]"
  using fetch_initial_progress_first
    [of "git (\<lambda>args. \<lparr>exit_code = 0, output_text = [],
                    progress_items =
                      [\<lparr>progress_kind = ''context'', percent = 0,
                        text_of = ''From https://example.com/r'', details_text = []\<rparr>,
                       \<lparr>progress_kind = ''progress'', percent = 0.5, text_of = [],
                        details_text = ''Receiving objects:  50% (6/12)''\<rparr>]\<rparr>)"
        "[]" False "\<lparr>remote_name = ''origin'', remote_url = ''https://example.com/r.git''\<rparr>"]
  by (simp add: git_def getFetchArgs_def fetch_progress_def List.map_filter_def)

end
